theory Spec2Isabelle
  imports Main "HOL-Library.Word"
begin

unbundle bit_operations_syntax

section \<open>Data model\<close>

text \<open>
  Python \<open>bytes\<close> are lists of 8-bit words. Stream ids, header values and lengths are
  Python integers that the multiplexer only ever uses as unsigned quantities (the spec's
  Frame has \<open>stream_id: unsigned integer\<close>); they are natural numbers here, so nothing
  wraps around.
\<close>

type_synonym byte = "8 word"
type_synonym bytes = "byte list"
type_synonym Multiaddr = string

text \<open>The exceptions that the two source files raise or catch.\<close>

datatype error =
    StreamNotFound
  | NotImplementedError
  | KeyError
  | ConnectionResetError
  | RawConnError
  | OtherException

text \<open>
  \<open>MplexStream(stream_id, initiator, mplex_conn)\<close>: the stream handle built by
  \<open>open_stream\<close> and \<open>accept_stream\<close>. The third argument is the multiplexer itself, which
  is the state every function below takes and returns.
\<close>

datatype MplexStream = MplexStream (stream_id_of: nat) (is_initiator: bool)

text \<open>
  The state of one \<open>Mplex\<close> object together with the connection \<open>self.conn\<close> it drives.
  \<^item> \<open>conn_reader\<close>: the bytes that have arrived on \<open>self.conn.reader\<close> and have not been
    read yet, oldest first;
  \<^item> \<open>conn_writer\<close>: the arguments of the calls \<open>self.conn.writer.write(_bytes)\<close> made so
    far, oldest first;
  \<^item> \<open>conn_next_id\<close>: the counter behind \<open>self.conn.next_stream_id()\<close>;
  \<^item> \<open>conn_closed\<close>: whether \<open>self.conn.close()\<close> has been called;
  \<^item> \<open>buffers\<close>: the dict from stream id to that stream's \<open>asyncio.Queue\<close>, a queue being the
    list of its chunks, oldest first;
  \<^item> \<open>stream_queue\<close>: the \<open>asyncio.Queue\<close> of stream ids waiting for \<open>accept_stream\<close>;
  \<^item> \<open>handler_calls\<close>: the handles for which
    \<open>asyncio.ensure_future(self.generic_protocol_handler(stream))\<close> has been executed,
    oldest first.
\<close>

record mplex =
  conn_reader :: bytes
  conn_writer :: "bytes list"
  conn_next_id :: nat
  conn_closed :: bool
  buffers :: "nat \<rightharpoonup> bytes list"
  stream_queue :: "nat list"
  handler_calls :: "MplexStream list"

text \<open>
  How a call ends: it returns a value, it raises, or it suspends on an \<open>await\<close> that nothing
  has completed yet (\<open>Queue.get()\<close> on an empty queue). Each case carries the state the call
  leaves behind.
\<close>

datatype 'a outcome = Returns 'a mplex | Raises error mplex | Blocks mplex

fun state_of :: "'a outcome \<Rightarrow> mplex" where
  "state_of (Returns _ s) = s"
| "state_of (Raises _ s) = s"
| "state_of (Blocks s) = s"

text \<open>\<open>Mplex.__init__\<close> on a connection with the given unread bytes and id counter.\<close>

definition Mplex_init :: "bytes \<Rightarrow> nat \<Rightarrow> mplex" where
  "Mplex_init unread first_id =
     \<lparr>conn_reader = unread, conn_writer = [], conn_next_id = first_id, conn_closed = False,
      buffers = Map.empty, stream_queue = [], handler_calls = []\<rparr>"

section \<open>Collaborators that are not part of the two source files\<close>

text \<open>
  Modelled from the spec: \<open>constants.HeaderTags\<close> is not in src; section 6 of the spec gives
  \<open>0 = NewStream\<close>. A flag argument below is the integer \<open>flag.value\<close>.
\<close>

definition HeaderTags_NewStream :: nat where
  "HeaderTags_NewStream = 0"

text \<open>
  Modelled from the spec: \<open>utils.encode_uvarint\<close> is not in src. The spec calls the encoding
  a varint, a variable-length integer encoding minimizing bytes for small values, with
  \<open>40 \<mapsto> 0x28\<close>, \<open>18 \<mapsto> 0x12\<close>, \<open>5 \<mapsto> 0x05\<close> and \<open>0 \<mapsto> 0x00\<close>: the unsigned
  varint of the libp2p wire formats, seven payload bits per byte, least significant group
  first, the top bit set on every byte but the last.
\<close>

function encode_uvarint :: "nat \<Rightarrow> bytes" where
  "encode_uvarint number =
     (let towrite = number AND 0x7F;
          number' = drop_bit 7 number
      in if number' \<noteq> 0 then of_nat (towrite OR 0x80) # encode_uvarint number'
         else [of_nat towrite])"
  by pat_completeness auto
termination
  by (relation "measure id") (auto simp: drop_bit_eq_div intro: div_less_dividend)

declare encode_uvarint.simps [simp del]

text \<open>
  The reader \<open>self.conn.reader\<close> is an \<open>asyncio.StreamReader\<close>, and every read is wrapped in
  \<open>asyncio.wait_for(..., timeout)\<close>. \<open>read(n)\<close> returns at once with no bytes when
  \<open>n = 0\<close>; otherwise it returns at most \<open>n\<close> bytes as soon as at least one byte is
  buffered, and waits while none is. The unread bytes of the state are all that arrives
  within the bound, so a read that has to wait ends in \<open>asyncio.TimeoutError\<close>, the value
  \<open>None\<close> here. The second component is what is left unread.
\<close>

definition reader_read :: "nat \<Rightarrow> bytes \<Rightarrow> (bytes \<times> bytes) option" where
  "reader_read n unread =
     (if n = 0 then Some ([], unread)
      else if unread = [] then None
      else Some (take n unread, drop n unread))"

text \<open>
  Modelled from the spec: \<open>utils.decode_uvarint_from_stream\<close> is not in src. Section 4.1
  of the spec: the varint is read from the byte-stream source with a bounded wait, and
  if the bound elapses before a full value is available the result is "no frame yet"
  (\<open>asyncio.TimeoutError\<close>, the value \<open>None\<close>). It reads one byte at a time and
  accumulates the seven-bit groups; the bytes read before a timeout are consumed.
\<close>

fun uvarint_loop :: "nat \<Rightarrow> nat \<Rightarrow> bytes \<Rightarrow> nat option \<times> bytes" where
  "uvarint_loop shift result [] = (None, [])"
| "uvarint_loop shift result (byte # unread) =
     (let i = unat byte;
          result' = result OR push_bit shift (i AND 0x7F)
      in if i AND 0x80 = 0 then (Some result', unread)
         else uvarint_loop (shift + 7) result' unread)"

definition decode_uvarint_from_stream :: "bytes \<Rightarrow> nat option \<times> bytes" where
  "decode_uvarint_from_stream unread = uvarint_loop 0 0 unread"

text \<open>
  Modelled from the spec: \<open>next_stream_id\<close> of the connection is not in src. Section 3 of
  the spec: ids come from a connection-wide monotonically increasing counter. The call
  returns the counter and advances it.
\<close>

definition next_stream_id :: "mplex \<Rightarrow> nat \<times> mplex" where
  "next_stream_id s = (conn_next_id s, s\<lparr>conn_next_id := Suc (conn_next_id s)\<rparr>)"

section \<open>The multiplexer: \<open>mplex.py\<close>\<close>

text \<open>\<open>Mplex.close\<close>: \<open>self.conn.close()\<close>.\<close>

definition close :: "mplex \<Rightarrow> mplex" where
  "close s = s\<lparr>conn_closed := True\<rparr>"

text \<open>\<open>Mplex.is_closed\<close>: the body is \<open>raise NotImplementedError()\<close>.\<close>

definition is_closed :: "mplex \<Rightarrow> bool outcome" where
  "is_closed s = Raises NotImplementedError s"

text \<open>\<open>await self.buffers[stream_id].get()\<close>: a missing key is Python's \<open>KeyError\<close>.\<close>

definition queue_get :: "nat \<Rightarrow> mplex \<Rightarrow> bytes outcome" where
  "queue_get stream_id s =
     (case buffers s stream_id of
        None \<Rightarrow> Raises KeyError s
      | Some [] \<Rightarrow> Blocks s
      | Some (chunk # rest) \<Rightarrow> Returns chunk (s\<lparr>buffers := (buffers s)(stream_id \<mapsto> rest)\<rparr>))"

text \<open>\<open>await self.buffers[stream_id].put(message)\<close>; the queues are unbounded.\<close>

definition queue_put :: "nat \<Rightarrow> bytes \<Rightarrow> mplex \<Rightarrow> unit outcome" where
  "queue_put stream_id message s =
     (case buffers s stream_id of
        None \<Rightarrow> Raises KeyError s
      | Some q \<Rightarrow> Returns () (s\<lparr>buffers := (buffers s)(stream_id \<mapsto> q @ [message])\<rparr>))"

definition read_buffer :: "nat \<Rightarrow> mplex \<Rightarrow> bytes outcome" where
  "read_buffer stream_id s =
     (if stream_id \<notin> dom (buffers s) then Raises StreamNotFound s
      else queue_get stream_id s)"

definition read_buffer_nonblocking :: "nat \<Rightarrow> mplex \<Rightarrow> bytes option outcome" where
  "read_buffer_nonblocking stream_id s =
     (if stream_id \<notin> dom (buffers s) then Raises StreamNotFound s
      else if buffers s stream_id = Some [] then Returns None s
      else (case queue_get stream_id s of
              Returns chunk s' \<Rightarrow> Returns (Some chunk) s'
            | Raises e s' \<Rightarrow> Raises e s'
            | Blocks s' \<Rightarrow> Blocks s'))"

text \<open>
  \<open>Mplex.write_to_stream\<close>: \<open>self.conn.writer.write(_bytes)\<close>, the drain, and
  \<open>return len(_bytes)\<close>.
\<close>

definition write_to_stream :: "bytes \<Rightarrow> mplex \<Rightarrow> nat \<times> mplex" where
  "write_to_stream bs s = (length bs, s\<lparr>conn_writer := conn_writer s @ [bs]\<rparr>)"

text \<open>\<open>Mplex.send_message(flag, data, stream_id)\<close>; \<open>data\<close> may be \<open>None\<close>.\<close>

definition send_message :: "nat \<Rightarrow> bytes option \<Rightarrow> nat \<Rightarrow> mplex \<Rightarrow> nat \<times> mplex" where
  "send_message flag data stream_id s =
     (let header = encode_uvarint (push_bit 3 stream_id OR flag) in
      case data of
        None \<Rightarrow> write_to_stream (header @ encode_uvarint 0) s
      | Some d \<Rightarrow> write_to_stream (header @ encode_uvarint (length d) @ d) s)"

text \<open>\<open>Mplex.open_stream(protocol_id, multi_addr)\<close>; neither argument is used.\<close>

definition open_stream :: "string \<Rightarrow> Multiaddr \<Rightarrow> mplex \<Rightarrow> MplexStream \<times> mplex" where
  "open_stream protocol_id multi_addr s =
     (let (stream_id, s1) = next_stream_id s;
          stream = MplexStream stream_id True;
          s2 = s1\<lparr>buffers := (buffers s1)(stream_id \<mapsto> [])\<rparr>;
          (written, s3) = send_message HeaderTags_NewStream None stream_id s2
      in (stream, s3))"

text \<open>
  \<open>Mplex.accept_stream\<close>: \<open>await self.stream_queue.get()\<close> suspends while the queue is
  empty; otherwise the oldest id is taken and the handler task is scheduled.
\<close>

definition accept_stream :: "mplex \<Rightarrow> unit outcome" where
  "accept_stream s =
     (case stream_queue s of
        [] \<Rightarrow> Blocks s
      | stream_id # rest \<Rightarrow>
          Returns () (s\<lparr>stream_queue := rest,
                        handler_calls := handler_calls s @ [MplexStream stream_id False]\<rparr>))"

text \<open>
  \<open>Mplex.read_message\<close>: \<open>None\<close> is the result \<open>(None, None, None)\<close> of the
  \<open>except asyncio.TimeoutError\<close> branch.
\<close>

definition read_message :: "mplex \<Rightarrow> (nat \<times> nat \<times> bytes) option \<times> mplex" where
  "read_message s =
     (case decode_uvarint_from_stream (conn_reader s) of
        (None, r1) \<Rightarrow> (None, s\<lparr>conn_reader := r1\<rparr>)
      | (Some header, r1) \<Rightarrow>
          (case decode_uvarint_from_stream r1 of
             (None, r2) \<Rightarrow> (None, s\<lparr>conn_reader := r2\<rparr>)
           | (Some len, r2) \<Rightarrow>
               (case reader_read len r2 of
                  None \<Rightarrow> (None, s\<lparr>conn_reader := r2\<rparr>)
                | Some (message, r3) \<Rightarrow>
                    (let flag = header AND 0x07;
                         stream_id = drop_bit 3 header
                     in (Some (stream_id, flag, message), s\<lparr>conn_reader := r3\<rparr>)))))"

text \<open>
  Whether one of the three bounded reads of \<open>read_message\<close> ends in
  \<open>asyncio.TimeoutError\<close> on the given unread bytes: the header varint is not complete,
  the length varint is not complete, or the payload read has to wait.
\<close>

definition reads_time_out :: "bytes \<Rightarrow> bool" where
  "reads_time_out unread =
     (case decode_uvarint_from_stream unread of
        (None, r1) \<Rightarrow> True
      | (Some header, r1) \<Rightarrow>
          (case decode_uvarint_from_stream r1 of
             (None, r2) \<Rightarrow> True
           | (Some len, r2) \<Rightarrow> reader_read len r2 = None))"

text \<open>
  One iteration of the \<open>while True\<close> loop of \<open>Mplex.handle_incoming\<close>. The first component
  is what \<open>read_message\<close> returned in this iteration; the second is how the iteration
  ends. An iteration that suspends in \<open>accept_stream\<close> never resumes, because this loop is
  the only place that puts ids on \<open>stream_queue\<close>.
\<close>

definition handle_incoming_iteration ::
  "mplex \<Rightarrow> (nat \<times> nat \<times> bytes) option \<times> unit outcome" where
  "handle_incoming_iteration s =
     (case read_message s of
        (None, s1) \<Rightarrow> (None, Returns () s1)
      | (Some (stream_id, flag, message), s1) \<Rightarrow>
          (Some (stream_id, flag, message),
           (let s2 = (if stream_id \<notin> dom (buffers s1)
                      then s1\<lparr>buffers := (buffers s1)(stream_id \<mapsto> []),
                              stream_queue := stream_queue s1 @ [stream_id]\<rparr>
                      else s1)
            in case (if flag = HeaderTags_NewStream then accept_stream s2 else Returns () s2) of
                 Returns _ s3 \<Rightarrow>
                   (if message \<noteq> [] then queue_put stream_id message s3 else Returns () s3)
               | Raises e s3 \<Rightarrow> Raises e s3
               | Blocks s3 \<Rightarrow> Blocks s3)))"

text \<open>
  The loop itself never returns. \<open>handle_incoming arrivals s\<close> runs one iteration per
  element of \<open>arrivals\<close>, each element being the bytes (possibly none) that the transport
  delivers to the reader before that iteration. The result is the list of frames that
  \<open>read_message\<close> returned, in order, and the outcome: \<open>Returns\<close> when every iteration
  ran to its end, otherwise the iteration that raised or suspended.
\<close>

fun handle_incoming ::
  "bytes list \<Rightarrow> mplex \<Rightarrow> (nat \<times> nat \<times> bytes) list \<times> unit outcome" where
  "handle_incoming [] s = ([], Returns () s)"
| "handle_incoming (arrival # arrivals) s =
     (case handle_incoming_iteration (s\<lparr>conn_reader := conn_reader s @ arrival\<rparr>) of
        (frame, Returns _ s') \<Rightarrow>
          (case handle_incoming arrivals s' of
             (frames, out) \<Rightarrow> ((case frame of None \<Rightarrow> [] | Some f \<Rightarrow> [f]) @ frames, out))
      | (frame, out) \<Rightarrow> ((case frame of None \<Rightarrow> [] | Some f \<Rightarrow> [f]), out))"

text \<open>
  \<open>k\<close> successive calls \<open>read_buffer(stream_id)\<close> by one consumer: the chunks returned,
  in call order, up to the first call that does not return.
\<close>

fun read_buffer_times :: "nat \<Rightarrow> nat \<Rightarrow> mplex \<Rightarrow> bytes list \<times> mplex" where
  "read_buffer_times 0 stream_id s = ([], s)"
| "read_buffer_times (Suc k) stream_id s =
     (case read_buffer stream_id s of
        Returns chunk s' \<Rightarrow>
          (case read_buffer_times k stream_id s' of (chunks, s'') \<Rightarrow> (chunk # chunks, s''))
      | Raises e s' \<Rightarrow> ([], s')
      | Blocks s' \<Rightarrow> ([], s'))"

text \<open>The queue of a stream as a list; a stream without a record has nothing queued.\<close>

definition queued :: "nat \<Rightarrow> mplex \<Rightarrow> bytes list" where
  "queued stream_id s = (case buffers s stream_id of None \<Rightarrow> [] | Some q \<Rightarrow> q)"

text \<open>
  The calls that can be made on a multiplexer, and the arrival of bytes from the
  transport. Under the cooperative scheduler the tasks interleave at their \<open>await\<close>s, so
  a history of the multiplexer is a list of these. \<open>after_call\<close> is the state a call
  leaves behind, whether it returned, raised or suspended.
\<close>

datatype call =
    Arrival bytes
  | LoopIteration
  | OpenStream string Multiaddr
  | AcceptStream
  | ReadBuffer nat
  | ReadBufferNonblocking nat
  | SendMessage nat "bytes option" nat
  | WriteToStream bytes
  | ReadMessage
  | Close
  | IsClosed

fun after_call :: "call \<Rightarrow> mplex \<Rightarrow> mplex" where
  "after_call (Arrival bs) s = s\<lparr>conn_reader := conn_reader s @ bs\<rparr>"
| "after_call LoopIteration s = state_of (snd (handle_incoming_iteration s))"
| "after_call (OpenStream protocol_id multi_addr) s = snd (open_stream protocol_id multi_addr s)"
| "after_call AcceptStream s = state_of (accept_stream s)"
| "after_call (ReadBuffer stream_id) s = state_of (read_buffer stream_id s)"
| "after_call (ReadBufferNonblocking stream_id) s = state_of (read_buffer_nonblocking stream_id s)"
| "after_call (SendMessage flag data stream_id) s = snd (send_message flag data stream_id s)"
| "after_call (WriteToStream bs) s = snd (write_to_stream bs s)"
| "after_call ReadMessage s = snd (read_message s)"
| "after_call Close s = close s"
| "after_call IsClosed s = state_of (is_closed s)"

fun after_calls :: "call list \<Rightarrow> mplex \<Rightarrow> mplex" where
  "after_calls [] s = s"
| "after_calls (c # cs) s = after_calls cs (after_call c s)"

section \<open>The raw connection: \<open>raw_connection.py\<close>\<close>

text \<open>
  What the underlying \<open>asyncio\<close> streams do during one call: \<open>writer.write(data)\<close> and
  \<open>writer.drain()\<close> return (\<open>None\<close>) or raise, \<open>reader.read(n)\<close> returns bytes or
  raises.
\<close>

record stream_behaviour =
  writer_write :: "bytes \<Rightarrow> error option"
  writer_drain :: "error option"
  reader_read_n :: "int \<Rightarrow> error + bytes"

text \<open>\<open>except ConnectionResetError: raise RawConnError()\<close>; any other exception propagates.\<close>

definition on_reset :: "error \<Rightarrow> error" where
  "on_reset e = (if e = ConnectionResetError then RawConnError else e)"

definition RawConnection_write :: "stream_behaviour \<Rightarrow> bytes \<Rightarrow> error + unit" where
  "RawConnection_write b data =
     (case writer_write b data of
        Some e \<Rightarrow> Inl (on_reset e)
      | None \<Rightarrow>
          (case writer_drain b of
             Some e \<Rightarrow> Inl (on_reset e)
           | None \<Rightarrow> Inr ()))"

definition RawConnection_read :: "stream_behaviour \<Rightarrow> int \<Rightarrow> error + bytes" where
  "RawConnection_read b n =
     (case reader_read_n b n of
        Inl e \<Rightarrow> Inl (on_reset e)
      | Inr data \<Rightarrow> Inr data)"

section \<open>The varint codec\<close>

lemma low7_take: "(n::nat) AND 0x7F = take_bit 7 n"
  using take_bit_eq_mask [of 7 n] by (simp add: mask_eq_exp_minus_1)

lemma low7_lt: "(n::nat) AND 0x7F < 128"
  by (simp add: low7_take take_bit_eq_mod)

lemma low7_or_lt: "((n::nat) AND 0x7F) OR 0x80 < 256"
proof -
  have "take_bit 8 (take_bit 7 n OR (0x80::nat)) = take_bit 7 n OR 0x80"
    by (simp add: take_bit_or)
  then have "take_bit 7 n OR (0x80::nat) < 2 ^ 8"
    by (simp only: take_bit_nat_eq_self_iff)
  then show ?thesis by (simp add: low7_take)
qed

lemma header_flag: "flag < 8 \<Longrightarrow> (push_bit 3 stream_id OR flag) AND 0x07 = (flag::nat)"
proof -
  assume "flag < 8"
  then have f: "take_bit 3 flag = flag" by (simp add: take_bit_nat_eq_self_iff)
  have "(push_bit 3 stream_id OR flag) AND 0x07 = take_bit 3 (push_bit 3 stream_id OR flag)"
    using take_bit_eq_mask [of 3 "push_bit 3 stream_id OR flag"] by (simp add: mask_eq_exp_minus_1)
  also have "\<dots> = take_bit 3 flag"
    by (simp add: take_bit_or take_bit_push_bit)
  finally show ?thesis using f by simp
qed

lemma flag_high_bits: "flag < 8 \<Longrightarrow> \<not> bit (flag::nat) (3 + k)"
proof -
  assume "flag < 8"
  have "(1::nat) \<le> 2 ^ k" by simp
  then have "(8::nat) * 1 \<le> 8 * 2 ^ k" by (rule mult_le_mono2)
  then have "flag < 8 * 2 ^ k" using \<open>flag < 8\<close> by linarith
  then have "flag < 2 ^ (3 + k)" by (simp add: power_add)
  then show ?thesis by (simp add: bit_iff_odd)
qed

lemma header_stream_id: "flag < 8 \<Longrightarrow> drop_bit 3 (push_bit 3 stream_id OR flag) = (stream_id::nat)"
proof (rule bit_eqI)
  fix k
  assume "flag < 8"
  then have "\<not> bit flag (3 + k)" by (rule flag_high_bits)
  then show "bit (drop_bit 3 (push_bit 3 stream_id OR flag)) k = bit stream_id k"
    by (simp add: bit_simps add.commute)
qed

lemma reader_read_exact: "reader_read (length payload) (payload @ rest) = Some (payload, rest)"
  by (simp add: reader_read_def)


lemma split7: "(n AND 0x7F) OR push_bit 7 (drop_bit 7 n) = (n::nat)"
  unfolding low7_take
proof (rule bit_eqI)
  fix k
  show "bit (take_bit 7 n OR push_bit 7 (drop_bit 7 n)) k = bit n k"
    by (cases "k < 7") (auto simp: bit_simps)
qed

lemma low7_or_and: "(((n::nat) AND 0x7F) OR 0x80) AND 0x7F = n AND 0x7F"
  unfolding low7_take
  by (rule bit_eqI) (auto simp: bit_simps)

lemma cont_bit_set: "(((n::nat) AND 0x7F) OR 0x80) AND 0x80 \<noteq> 0"
proof -
  have "bit ((take_bit 7 n OR 2 ^ 7) AND (2 ^ 7 :: nat)) 7"
    by (simp add: bit_simps)
  then have "(take_bit 7 n OR 2 ^ 7) AND (2 ^ 7 :: nat) \<noteq> 0"
    by (metis bit_0_eq bot_apply bot_bool_def)
  then show ?thesis by (simp add: low7_take)
qed

lemma cont_bit_clear: "((n::nat) AND 0x7F) AND 0x80 = 0"
proof -
  have "take_bit 7 n AND (2 ^ 7 :: nat) = 0"
  proof (rule bit_eqI)
    fix k
    show "bit (take_bit 7 n AND (2 ^ 7 :: nat)) k = bit (0::nat) k"
      by (simp only: bit_and_iff bit_take_bit_iff bit_exp_iff) auto
  qed
  then show ?thesis by (simp add: low7_take)
qed

lemma low7_idem: "((n::nat) AND 0x7F) AND 0x7F = n AND 0x7F"
  by (simp add: and.assoc)

lemma unat_byte: "n < 256 \<Longrightarrow> unat (of_nat n :: byte) = n"
  by (simp add: unat_of_nat)

lemma uvarint_loop_more:
  "unat b AND 0x80 \<noteq> 0 \<Longrightarrow>
   uvarint_loop s r (b # bs) = uvarint_loop (s + 7) (r OR push_bit s (unat b AND 0x7F)) bs"
  by (simp add: Let_def)

lemma uvarint_loop_last:
  "unat b AND 0x80 = 0 \<Longrightarrow>
   uvarint_loop s r (b # bs) = (Some (r OR push_bit s (unat b AND 0x7F)), bs)"
  by (simp add: Let_def)

lemma uvarint_loop_encode:
  "uvarint_loop shift result (encode_uvarint n @ rest) = (Some (result OR push_bit shift n), rest)"
proof (induction n arbitrary: shift result rule: encode_uvarint.induct)
  case (1 number)
  let ?lo = "number AND 0x7F"
  let ?hi = "drop_bit 7 number"
  show ?case
  proof (cases "?hi = 0")
    case True
    then have enc: "encode_uvarint number = [of_nat ?lo]"
      by (subst encode_uvarint.simps) simp
    have u: "unat (of_nat ?lo :: byte) = ?lo"
      using low7_lt [of number] by (intro unat_byte) simp
    have "?lo = number" using split7 [of number] True by simp
    then have eq: "push_bit shift ?lo = push_bit shift number" by simp
    have "uvarint_loop shift result (encode_uvarint number @ rest)
          = (Some (result OR push_bit shift ?lo), rest)"
      unfolding enc append_Cons append_Nil
      by (subst uvarint_loop_last) (simp_all only: u cont_bit_clear low7_idem)
    then show ?thesis by (simp only: eq)
  next
    case False
    then have enc: "encode_uvarint number = of_nat (?lo OR 0x80) # encode_uvarint ?hi"
      by (subst encode_uvarint.simps) simp
    have u: "unat (of_nat (?lo OR 0x80) :: byte) = ?lo OR 0x80"
      by (intro unat_byte low7_or_lt)
    have "(result OR push_bit shift ?lo) OR push_bit (shift + 7) ?hi
          = result OR push_bit shift (?lo OR push_bit 7 ?hi)"
      by (simp add: push_bit_or push_bit_push_bit or.assoc add.commute del: push_bit_and)
    then have eq: "(result OR push_bit shift ?lo) OR push_bit (shift + 7) ?hi
          = result OR push_bit shift number"
      by (simp only: split7)
    have "uvarint_loop shift result (encode_uvarint number @ rest)
          = uvarint_loop (shift + 7) (result OR push_bit shift ?lo) (encode_uvarint ?hi @ rest)"
      unfolding enc append_Cons
      by (subst uvarint_loop_more) (simp_all only: u cont_bit_set low7_or_and not_False_eq_True)
    also have "\<dots> = (Some ((result OR push_bit shift ?lo) OR push_bit (shift + 7) ?hi), rest)"
      by (rule "1.IH" [OF refl refl False])
    finally show ?thesis by (simp only: eq)
  qed
qed

lemma decode_encode_uvarint:
  "decode_uvarint_from_stream (encode_uvarint n @ rest) = (Some n, rest)"
  by (simp add: decode_uvarint_from_stream_def uvarint_loop_encode)

lemma encode_uvarint_nonempty: "encode_uvarint n \<noteq> []"
  by (subst encode_uvarint.simps) (simp add: Let_def)

lemma encode_uvarint_0: "encode_uvarint 0 = [0]"
  by (subst encode_uvarint.simps) simp

lemma read_message_frame:
  assumes "flag < 8"
  shows "read_message (s\<lparr>conn_reader :=
           encode_uvarint (push_bit 3 stream_id OR flag) @ encode_uvarint (length payload) @ payload @ rest\<rparr>)
         = (Some (stream_id, flag, payload), s\<lparr>conn_reader := rest\<rparr>)"
  using assms
  by (simp add: read_message_def decode_encode_uvarint reader_read_exact
      header_flag header_stream_id del: drop_bit_or)

section \<open>Frame codec\<close>

text \<open>
  Claim C1 (frame codec round trip). For every stream id, every flag in \<open>[0, 7]\<close> and
  every payload, the bytes that \<open>send_message\<close> hands to the writer, once they are the
  unread bytes of a reader (followed by any later bytes \<open>rest\<close>), make \<open>read_message\<close>
  return exactly \<open>(stream_id, flag, payload)\<close> and leave \<open>rest\<close> unread. The header is
  built as \<open>(stream_id << 3) | flag\<close> and split as \<open>header & 0x7\<close> and \<open>header >> 3\<close>.
  Python integers are unbounded, so the claim's bound \<open>stream_id < 2^61\<close> is not needed.
\<close>

theorem frame_round_trip:
  assumes "flag \<le> 7"
  shows "read_message (r\<lparr>conn_reader :=
            last (conn_writer (snd (send_message flag (Some payload) stream_id s))) @ rest\<rparr>)
         = (Some (stream_id, flag, payload), r\<lparr>conn_reader := rest\<rparr>)"
proof -
  have "flag < 8" using assms by simp
  then show ?thesis
    using read_message_frame [where flag = flag and s = r and stream_id = stream_id
        and payload = payload and rest = rest]
    by (simp add: send_message_def write_to_stream_def Let_def)
qed

theorem frame_round_trip_witness:
  "(2::nat) \<le> 7 \<and>
   read_message (Mplex_init [] 1 \<lparr>conn_reader :=
       last (conn_writer (snd (send_message 2 (Some [0x68, 0x65, 0x6C, 0x6C, 0x6F]) 2 (Mplex_init [] 0))))
       @ [0x28, 0x00]\<rparr>)
   = (Some (2, 2, [0x68, 0x65, 0x6C, 0x6C, 0x6F]), Mplex_init [] 1 \<lparr>conn_reader := [0x28, 0x00]\<rparr>)"
  using frame_round_trip [where stream_id = 2 and flag = 2 and r = "Mplex_init [] 1"
      and payload = "[0x68, 0x65, 0x6C, 0x6C, 0x6F]" and s = "Mplex_init [] 0"
      and rest = "[0x28, 0x00]"]
  by simp

section \<open>Opening a stream\<close>

text \<open>
  Claim C4 (postcondition of \<open>open_stream\<close>). Every call takes the next id from the
  connection's counter and advances the counter, stores an empty queue for that id in
  \<open>buffers\<close>, passes exactly one frame to the writer, the header varint of
  \<open>(stream_id << 3) | NewStream\<close> followed by the length byte \<open>0x00\<close> and no payload, and
  returns a handle bound to that id with \<open>initiator = True\<close>. A peer that reads that frame
  gets \<open>(stream_id, NewStream, b"")\<close>. The source keeps the direction on the handle; its
  table holds only the queue.
\<close>

theorem open_stream_postcondition:
  "stream_id_of (fst (open_stream protocol_id multi_addr s)) = fst (next_stream_id s)
   \<and> conn_next_id (snd (open_stream protocol_id multi_addr s)) = conn_next_id (snd (next_stream_id s))
   \<and> is_initiator (fst (open_stream protocol_id multi_addr s))
   \<and> buffers (snd (open_stream protocol_id multi_addr s)) 
        = (buffers s)(fst (next_stream_id s) \<mapsto> [])
   \<and> conn_writer (snd (open_stream protocol_id multi_addr s))
        = conn_writer s @ [encode_uvarint (push_bit 3 (fst (next_stream_id s)) OR HeaderTags_NewStream) @ [0]]
   \<and> read_message (r\<lparr>conn_reader := last (conn_writer (snd (open_stream protocol_id multi_addr s)))\<rparr>)
        = (Some (fst (next_stream_id s), HeaderTags_NewStream, []), r\<lparr>conn_reader := []\<rparr>)"
proof -
  have "read_message (r\<lparr>conn_reader := encode_uvarint (push_bit 3 (conn_next_id s) OR 0) @ encode_uvarint (length ([]::bytes)) @ [] @ []\<rparr>)
     = (Some (conn_next_id s, 0, []), r\<lparr>conn_reader := []\<rparr>)"
    by (rule read_message_frame) simp
  then show ?thesis
    by (simp add: open_stream_def next_stream_id_def send_message_def write_to_stream_def
      Let_def encode_uvarint_0 HeaderTags_NewStream_def)
qed

section \<open>Bytes written\<close>

text \<open>
  Claim C10 (bytes-written count). For every flag, stream id and data, \<open>send_message\<close>
  returns the length of the frame it passes to the writer: the length of the header
  varint of \<open>(stream_id << 3) | flag\<close>, plus the length of the varint of the payload
  length, plus the payload length, \<open>data = None\<close> counting as an empty payload. The result
  is strictly greater than \<open>len(data)\<close>.
\<close>

theorem send_message_returns_frame_length:
  "fst (send_message flag None stream_id s)
     = length (encode_uvarint (push_bit 3 stream_id OR flag)) + length (encode_uvarint 0) + 0
   \<and> fst (send_message flag (Some d) stream_id s)
     = length (encode_uvarint (push_bit 3 stream_id OR flag)) + length (encode_uvarint (length d))
       + length d
   \<and> length d < fst (send_message flag (Some d) stream_id s)
   \<and> conn_writer (snd (send_message flag (Some d) stream_id s))
     = conn_writer s @ [encode_uvarint (push_bit 3 stream_id OR flag) @ encode_uvarint (length d) @ d]"
proof -
  have "0 < length (encode_uvarint (push_bit 3 stream_id OR flag))"
    using encode_uvarint_nonempty by blast
  then show ?thesis
    by (simp add: send_message_def write_to_stream_def Let_def)
qed

section \<open>Reading from a stream's queue\<close>

text \<open>
  Claim C5 (unknown id lookup). For a stream id that is not a key of \<open>buffers\<close>, both
  \<open>read_buffer\<close> and \<open>read_buffer_nonblocking\<close> raise \<open>StreamNotFound\<close> and leave the
  whole state, the table and every queue included, as it was.
\<close>

theorem unknown_id_lookup:
  assumes "stream_id \<notin> dom (buffers s)"
  shows "read_buffer stream_id s = Raises StreamNotFound s
       \<and> read_buffer_nonblocking stream_id s = Raises StreamNotFound s"
  using assms by (simp add: read_buffer_def read_buffer_nonblocking_def)

theorem unknown_id_lookup_witness:
  "7 \<notin> dom (buffers (snd (open_stream ''/echo/1.0.0'' ''/ip4/127.0.0.1'' (Mplex_init [] 0))))
   \<and> read_buffer 7 (snd (open_stream ''/echo/1.0.0'' ''/ip4/127.0.0.1'' (Mplex_init [] 0)))
       = Raises StreamNotFound (snd (open_stream ''/echo/1.0.0'' ''/ip4/127.0.0.1'' (Mplex_init [] 0)))
   \<and> read_buffer_nonblocking 7 (snd (open_stream ''/echo/1.0.0'' ''/ip4/127.0.0.1'' (Mplex_init [] 0)))
       = Raises StreamNotFound (snd (open_stream ''/echo/1.0.0'' ''/ip4/127.0.0.1'' (Mplex_init [] 0)))"
proof -
  have h: "7 \<notin> dom (buffers (snd (open_stream ''/echo/1.0.0'' ''/ip4/127.0.0.1'' (Mplex_init [] 0))))"
    by (simp add: open_stream_def next_stream_id_def send_message_def write_to_stream_def
        Mplex_init_def Let_def)
  show ?thesis using h unknown_id_lookup [OF h] by simp
qed

section \<open>Closing\<close>

text \<open>
  Claim C8 (\<open>is_closed\<close>). The claim asks for a boolean in every state. The source raises
  \<open>NotImplementedError\<close> in every state, also right after \<open>close()\<close>.
\<close>

theorem is_closed_not_implemented:
  "is_closed s = Raises NotImplementedError s
   \<and> is_closed (close s) = Raises NotImplementedError (close s)"
  by (simp add: is_closed_def)

section \<open>Decoding a frame\<close>

text \<open>
  Claim C6 (decode failure distinct from "no frame yet"), as the source has it.
  \<open>read_message\<close> signals no decode failure. When one of its three bounded reads times
  out (the header varint is incomplete, the length varint is incomplete, or the declared
  length is positive and no payload byte has arrived) it returns the sentinel
  \<open>(None, None, None)\<close>, the same value as for "no frame yet". When the header varint, the
  length varint and all of the declared payload bytes are unread in the reader, it returns
  \<open>(header >> 3, header & 0x7, payload)\<close> with the payload of the declared length, and
  leaves the bytes after the frame unread.
\<close>

theorem read_message_sentinel_or_frame:
  "(reads_time_out (conn_reader s) \<longrightarrow> fst (read_message s) = None)
   \<and> (decode_uvarint_from_stream (conn_reader s) = (Some header, r1)
        \<and> decode_uvarint_from_stream r1 = (Some len, r2)
        \<and> len \<le> length r2
      \<longrightarrow> read_message s = (Some (drop_bit 3 header, header AND 0x07, take len r2),
                             s\<lparr>conn_reader := drop len r2\<rparr>)
          \<and> length (take len r2) = len)"
  by (auto simp: reads_time_out_def read_message_def reader_read_def Let_def
      split: prod.splits option.splits if_splits)

theorem read_message_sentinel_or_frame_witness:
  "reads_time_out (conn_reader (Mplex_init [0x28, 0x05] 0))
   \<and> fst (read_message (Mplex_init [0x28, 0x05] 0)) = None
   \<and> decode_uvarint_from_stream (conn_reader (Mplex_init [0x12, 0x02, 0x68, 0x69, 0x28] 0))
       = (Some 18, [0x02, 0x68, 0x69, 0x28])
   \<and> decode_uvarint_from_stream [0x02, 0x68, 0x69, 0x28] = (Some 2, [0x68, 0x69, 0x28])
   \<and> (2::nat) \<le> length [0x68, 0x69, 0x28 :: byte]
   \<and> fst (read_message (Mplex_init [0x12, 0x02, 0x68, 0x69, 0x28] 0)) = Some (2, 2, [0x68, 0x69])
   \<and> conn_reader (snd (read_message (Mplex_init [0x12, 0x02, 0x68, 0x69, 0x28] 0))) = [0x28]"
proof -
  have t: "reads_time_out (conn_reader (Mplex_init [0x28, 0x05] 0))" by code_simp
  have d1: "decode_uvarint_from_stream (conn_reader (Mplex_init [0x12, 0x02, 0x68, 0x69, 0x28] 0))
       = (Some 18, [0x02, 0x68, 0x69, 0x28])"
    by code_simp
  have d2: "decode_uvarint_from_stream [0x02, 0x68, 0x69, 0x28] = (Some 2, [0x68, 0x69, 0x28])"
    by code_simp
  have l: "(2::nat) \<le> length [0x68, 0x69, 0x28 :: byte]" by simp
  have v: "drop_bit 3 (18::nat) = 2" "(18::nat) AND 0x07 = 2" by code_simp+
  from read_message_sentinel_or_frame [of "Mplex_init [0x28, 0x05] 0"] t
  have a: "fst (read_message (Mplex_init [0x28, 0x05] 0)) = None" by blast
  from read_message_sentinel_or_frame [of "Mplex_init [0x12, 0x02, 0x68, 0x69, 0x28] 0"
      18 "[0x02, 0x68, 0x69, 0x28]" 2 "[0x68, 0x69, 0x28]"] d1 d2 l
  have "read_message (Mplex_init [0x12, 0x02, 0x68, 0x69, 0x28] 0)
      = (Some (drop_bit 3 18, 18 AND 0x07, take 2 [0x68, 0x69, 0x28]),
         Mplex_init [0x12, 0x02, 0x68, 0x69, 0x28] 0\<lparr>conn_reader := drop 2 [0x68, 0x69, 0x28]\<rparr>)"
    by blast
  then have b: "fst (read_message (Mplex_init [0x12, 0x02, 0x68, 0x69, 0x28] 0)) = Some (2, 2, [0x68, 0x69])"
    and c: "conn_reader (snd (read_message (Mplex_init [0x12, 0x02, 0x68, 0x69, 0x28] 0))) = [0x28]"
    using v by simp_all
  show ?thesis using t a d1 d2 l b c by blast
qed

text \<open>
  The claim as stated fails: with header \<open>0x28\<close>, declared length 5 and only two payload
  bytes unread, \<open>read_message\<close> returns the frame \<open>(5, 0, b"he")\<close>; and a declared length
  with no payload byte, a truncated varint and an idle connection all give the sentinel.
\<close>

theorem short_payload_returned_as_frame:
  "decode_uvarint_from_stream [0x28, 0x05, 0x68, 0x65] = (Some 40, [0x05, 0x68, 0x65])
   \<and> decode_uvarint_from_stream [0x05, 0x68, 0x65] = (Some 5, [0x68, 0x65])
   \<and> fst (read_message (Mplex_init [0x28, 0x05, 0x68, 0x65] 0)) = Some (5, 0, [0x68, 0x65])
   \<and> length [0x68, 0x65 :: byte] < 5
   \<and> fst (read_message (Mplex_init [0x28, 0x05] 0)) = None
   \<and> fst (read_message (Mplex_init [0x28, 0x80] 0)) = None
   \<and> fst (read_message (Mplex_init [] 0)) = None"
  by code_simp

section \<open>The demultiplex loop\<close>

lemma read_message_buffers [simp]: "buffers (snd (read_message s)) = buffers s"
  by (simp add: read_message_def Let_def split: prod.splits option.splits)

lemma read_message_other [simp]:
  "stream_queue (snd (read_message s)) = stream_queue s"
  "handler_calls (snd (read_message s)) = handler_calls s"
  by (simp_all add: read_message_def Let_def split: prod.splits option.splits)

lemma queued_reader [simp]: "queued sid (s\<lparr>conn_reader := r\<rparr>) = queued sid s"
  by (simp add: queued_def)

lemma iteration_queued:
  assumes "handle_incoming_iteration s = (fr, Returns u s')"
  shows "queued sid s' =
         queued sid s @ [m. (i, f, m) \<leftarrow> (case fr of None \<Rightarrow> [] | Some x \<Rightarrow> [x]), i = sid, m \<noteq> []]"
proof (cases "read_message s")
  case (Pair res s1)
  have b1: "buffers s1 = buffers s"
    using read_message_buffers [of s] Pair by simp
  show ?thesis
  proof (cases res)
    case None
    with Pair assms b1 show ?thesis
      by (auto simp: handle_incoming_iteration_def queued_def)
  next
    case (Some frame)
    obtain i f m where frame: "frame = (i, f, m)" by (cases frame)
    from assms Pair Some frame b1 show ?thesis
      by (auto simp: handle_incoming_iteration_def queued_def Let_def accept_stream_def
          queue_put_def dom_def
          split: if_splits outcome.splits list.splits option.splits)
  qed
qed

lemma handle_incoming_queued:
  "handle_incoming arrivals s = (frames, Returns u s') \<Longrightarrow>
   queued sid s' = queued sid s @ [m. (i, f, m) \<leftarrow> frames, i = sid, m \<noteq> []]"
proof (induction arrivals arbitrary: s frames)
  case Nil
  then show ?case by simp
next
  case (Cons arrival arrivals)
  let ?s0 = "s\<lparr>conn_reader := conn_reader s @ arrival\<rparr>"
  obtain fr out where it: "handle_incoming_iteration ?s0 = (fr, out)"
    by (cases "handle_incoming_iteration ?s0")
  show ?case
  proof (cases out)
    case (Returns v s1)
    obtain frs out' where rest: "handle_incoming arrivals s1 = (frs, out')"
      by (cases "handle_incoming arrivals s1")
    from Cons.prems it Returns rest
    have fr: "frames = (case fr of None \<Rightarrow> [] | Some x \<Rightarrow> [x]) @ frs" and out': "out' = Returns u s'"
      by auto
    have "queued sid s1 = queued sid ?s0 @ [m. (i, f, m) \<leftarrow> (case fr of None \<Rightarrow> [] | Some x \<Rightarrow> [x]), i = sid, m \<noteq> []]"
      using it Returns by (intro iteration_queued) simp
    moreover have "queued sid s' = queued sid s1 @ [m. (i, f, m) \<leftarrow> frs, i = sid, m \<noteq> []]"
      using rest out' by (intro Cons.IH) simp
    ultimately show ?thesis by (simp add: fr)
  next
    case (Raises e s1)
    with Cons.prems it show ?thesis by simp
  next
    case (Blocks s1)
    with Cons.prems it show ?thesis by simp
  qed
qed

lemma read_buffer_times_take:
  "fst (read_buffer_times k sid s) = take k (queued sid s)"
proof (induction k arbitrary: s)
  case 0
  then show ?case by simp
next
  case (Suc k)
  show ?case
  proof (cases "buffers s sid")
    case None
    then show ?thesis by (simp add: read_buffer_def queued_def dom_def)
  next
    case (Some q)
    show ?thesis
    proof (cases q)
      case Nil
      with Some show ?thesis by (simp add: read_buffer_def queue_get_def queued_def dom_def)
    next
      case (Cons c cs)
      let ?s' = "s\<lparr>buffers := (buffers s)(sid \<mapsto> cs)\<rparr>"
      have rb: "read_buffer sid s = Returns c ?s'"
        using Some Cons by (simp add: read_buffer_def queue_get_def dom_def)
      have "queued sid ?s' = cs" by (simp add: queued_def)
      with Suc.IH [of ?s'] have "fst (read_buffer_times k sid ?s') = take k cs" by simp
      then show ?thesis
        using Some Cons rb by (auto simp: queued_def split: prod.splits)
    qed
  qed
qed

text \<open>
  What the loop does deliver, it delivers in order. For a run in which every iteration
  ran to its end and for any stream, the queue after the run is the queue before it
  followed by the non-empty payloads of the frames received for that stream, in the order
  of the frames; empty payloads are not enqueued; and \<open>k\<close> successive \<open>read_buffer\<close>
  calls return the first \<open>k\<close> queued chunks in that order.
\<close>

lemma completed_run_fifo:
  assumes "handle_incoming arrivals s = (frames, Returns u s')"
  shows "queued stream_id s' = queued stream_id s @ [m. (i, f, m) \<leftarrow> frames, i = stream_id, m \<noteq> []]
       \<and> fst (read_buffer_times k stream_id s') = take k (queued stream_id s')"
  using handle_incoming_queued [OF assms] read_buffer_times_take by simp

text \<open>
  An instance with two streams interleaved: \<open>NewStream\<close> for stream 5 with payload
  \<open>b"a"\<close>, then for stream 2 the payloads \<open>b"b"\<close>, \<open>b""\<close> and \<open>b"cd"\<close>, with
  \<open>b"x"\<close> for stream 5 in between. Stream 2 gets \<open>b"b"\<close> before \<open>b"cd"\<close>, the empty
  payload is skipped, and two reads return them in that order.
\<close>

lemma completed_run_fifo_example:
  "handle_incoming [[0x28, 0x01, 0x61, 0x11, 0x01, 0x62], [0x29, 0x01, 0x78, 0x11, 0x00],
                    [0x11, 0x02, 0x63, 0x64], [], []] (Mplex_init [] 0)
     = (fst (handle_incoming [[0x28, 0x01, 0x61, 0x11, 0x01, 0x62], [0x29, 0x01, 0x78, 0x11, 0x00],
                    [0x11, 0x02, 0x63, 0x64], [], []] (Mplex_init [] 0)),
        Returns () (state_of (snd (handle_incoming [[0x28, 0x01, 0x61, 0x11, 0x01, 0x62],
                    [0x29, 0x01, 0x78, 0x11, 0x00], [0x11, 0x02, 0x63, 0x64], [], []] (Mplex_init [] 0)))))
   \<and> fst (handle_incoming [[0x28, 0x01, 0x61, 0x11, 0x01, 0x62], [0x29, 0x01, 0x78, 0x11, 0x00],
                    [0x11, 0x02, 0x63, 0x64], [], []] (Mplex_init [] 0))
     = [(5, 0, [0x61]), (2, 1, [0x62]), (5, 1, [0x78]), (2, 1, []), (2, 1, [0x63, 0x64])]
   \<and> queued 2 (state_of (snd (handle_incoming [[0x28, 0x01, 0x61, 0x11, 0x01, 0x62],
                    [0x29, 0x01, 0x78, 0x11, 0x00], [0x11, 0x02, 0x63, 0x64], [], []] (Mplex_init [] 0))))
     = [[0x62], [0x63, 0x64]]
   \<and> fst (read_buffer_times 2 2 (state_of (snd (handle_incoming [[0x28, 0x01, 0x61, 0x11, 0x01, 0x62],
                    [0x29, 0x01, 0x78, 0x11, 0x00], [0x11, 0x02, 0x63, 0x64], [], []] (Mplex_init [] 0)))))
     = [[0x62], [0x63, 0x64]]"
proof -
  define H where
    "H = handle_incoming [[0x28, 0x01, 0x61, 0x11, 0x01, 0x62], [0x29, 0x01, 0x78, 0x11, 0x00],
                    [0x11, 0x02, 0x63, 0x64], [], []] (Mplex_init [] 0)"
  have "case snd H of Returns _ _ \<Rightarrow> True | _ \<Rightarrow> False"
    unfolding H_def by code_simp
  then have h: "H = (fst H, Returns () (state_of (snd H)))"
    by (cases "snd H") (simp_all add: prod_eq_iff)
  have frames: "fst H = [(5, 0, [0x61]), (2, 1, [0x62]), (5, 1, [0x78]), (2, 1, []), (2, 1, [0x63, 0x64])]"
    unfolding H_def by code_simp
  have q0: "queued 2 (Mplex_init [] 0) = []"
    by (simp add: queued_def Mplex_init_def)
  have main: "queued 2 (state_of (snd H))
        = queued 2 (Mplex_init [] 0) @ [m. (i, f, m) \<leftarrow> fst H, i = 2, m \<noteq> []]
      \<and> fst (read_buffer_times 2 2 (state_of (snd H))) = take 2 (queued 2 (state_of (snd H)))"
    using completed_run_fifo [OF h [unfolded H_def], of 2 2] unfolding H_def .
  show ?thesis
    unfolding H_def [symmetric]
  proof (intro conjI)
    show "H = (fst H, Returns () (state_of (snd H)))" by (rule h)
    show "fst H = [(5, 0, [0x61]), (2, 1, [0x62]), (5, 1, [0x78]), (2, 1, []), (2, 1, [0x63, 0x64])]"
      by (rule frames)
    show "queued 2 (state_of (snd H)) = [[0x62], [0x63, 0x64]]"
      using main by (simp add: frames q0)
    show "fst (read_buffer_times 2 2 (state_of (snd H))) = [[0x62], [0x63, 0x64]]"
      using main by (simp add: frames q0)
  qed
qed

text \<open>
  Claim C3 (per-stream FIFO delivery). The claim asks that every non-empty inbound
  payload be appended to its stream's queue in the order its frame was received. Two
  frames for stream 5 arrive, \<open>NewStream\<close> with no payload and \<open>NewStream\<close> with payload
  \<open>b"a"\<close>. \<open>read_message\<close> returns both. The second iteration finds the id in \<open>buffers\<close>,
  puts nothing on \<open>stream_queue\<close> and suspends in \<open>accept_stream\<close> before the \<open>put\<close>: the
  queue of stream 5 stays empty, the payload is never enqueued, and no later iteration
  runs.
\<close>

theorem blocked_iteration_loses_payload:
  "fst (handle_incoming [[0x28, 0x00, 0x28, 0x01, 0x61], [], []] (Mplex_init [] 0))
     = [(5, 0, []), (5, 0, [0x61])]
   \<and> (case snd (handle_incoming [[0x28, 0x00, 0x28, 0x01, 0x61], [], []] (Mplex_init [] 0)) of
        Blocks s' \<Rightarrow> buffers s' 5 = Some [] \<and> conn_reader s' = []
      | _ \<Rightarrow> False)"
  by code_simp

text \<open>
  Claim C2 (new-stream dispatch). The claim asks for one handler call per \<open>NewStream\<close>
  frame, bound to the id of that frame. The source takes the id from \<open>stream_queue\<close>
  instead. Two \<open>NewStream\<close> frames for stream 5: the second finds a record for 5, the
  queue is empty, the loop suspends for good after one handler call. A message frame for
  the unseen stream 3 followed by \<open>NewStream\<close> for stream 5: the handler is called with a
  handle for stream 3, and 5 stays on the queue.
\<close>

theorem new_stream_dispatch_misses:
  "fst (handle_incoming [[0x28, 0x00, 0x28, 0x00], []] (Mplex_init [] 0)) = [(5, 0, []), (5, 0, [])]
   \<and> (case snd (handle_incoming [[0x28, 0x00, 0x28, 0x00], []] (Mplex_init [] 0)) of
        Blocks s' \<Rightarrow> handler_calls s' = [MplexStream 5 False] \<and> stream_queue s' = []
      | _ \<Rightarrow> False)
   \<and> fst (handle_incoming [[0x19, 0x01, 0x78, 0x28, 0x00], []] (Mplex_init [] 0))
       = [(3, 1, [0x78]), (5, HeaderTags_NewStream, [])]
   \<and> (case snd (handle_incoming [[0x19, 0x01, 0x78, 0x28, 0x00], []] (Mplex_init [] 0)) of
        Returns u s' \<Rightarrow> handler_calls s' = [MplexStream 3 False] \<and> stream_queue s' = [5]
      | _ \<Rightarrow> False)"
  by code_simp

section \<open>The stream table only grows\<close>

lemma accept_stream_buffers [simp]: "buffers (state_of (accept_stream s)) = buffers s"
  by (simp add: accept_stream_def split: list.splits)

lemma queue_put_dom: "dom (buffers s) \<subseteq> dom (buffers (state_of (queue_put i m s)))"
  by (auto simp: queue_put_def split: option.splits)

lemma queue_get_dom: "dom (buffers s) \<subseteq> dom (buffers (state_of (queue_get i s)))"
  by (auto simp: queue_get_def split: option.splits list.splits)

lemma iteration_dom:
  "dom (buffers s) \<subseteq> dom (buffers (state_of (snd (handle_incoming_iteration s))))"
proof (cases "read_message s")
  case (Pair res s1)
  have b1: "buffers s1 = buffers s"
    using read_message_buffers [of s] Pair by simp
  show ?thesis
  proof (cases res)
    case None
    with Pair b1 show ?thesis by (simp add: handle_incoming_iteration_def)
  next
    case (Some frame)
    obtain i f m where frame: "frame = (i, f, m)" by (cases frame)
    from Pair Some frame b1 show ?thesis
      by (auto simp: handle_incoming_iteration_def Let_def accept_stream_def queue_put_def
          split: if_splits outcome.splits list.splits option.splits)
  qed
qed

lemma open_stream_buffers:
  "buffers (snd (open_stream p a s)) = (buffers s)(conn_next_id s \<mapsto> [])"
  by (simp add: open_stream_def next_stream_id_def send_message_def write_to_stream_def Let_def)

lemma after_call_dom: "dom (buffers s) \<subseteq> dom (buffers (after_call c s))"
proof (cases c)
  case LoopIteration
  then show ?thesis using iteration_dom by simp
next
  case (OpenStream p a)
  then show ?thesis by (auto simp: open_stream_buffers)
next
  case (ReadBuffer i)
  then show ?thesis using queue_get_dom [of s i] by (simp add: read_buffer_def)
next
  case (ReadBufferNonblocking i)
  then show ?thesis using queue_get_dom [of s i]
    by (auto simp: read_buffer_nonblocking_def queue_get_def split: outcome.splits option.splits list.splits)
qed (auto simp: send_message_def write_to_stream_def close_def is_closed_def Let_def split: option.splits)

lemma after_calls_dom: "dom (buffers s) \<subseteq> dom (buffers (after_calls cs s))"
proof (induction cs arbitrary: s)
  case Nil
  then show ?case by simp
next
  case (Cons c cs)
  have "dom (buffers s) \<subseteq> dom (buffers (after_call c s))" by (rule after_call_dom)
  also have "\<dots> \<subseteq> dom (buffers (after_calls cs (after_call c s)))" by (rule Cons.IH)
  finally show ?case by simp
qed

text \<open>
  Claim C9 (stream-table membership). The id of the handle that \<open>open_stream\<close> returns is
  a key of \<open>buffers\<close> when \<open>open_stream\<close> returns; no call on the multiplexer and no
  arrival of bytes removes a key, neither one call nor any history of them; hence after
  any history \<open>read_buffer\<close> and \<open>read_buffer_nonblocking\<close> on that id do not raise
  \<open>StreamNotFound\<close>.
\<close>

theorem opened_stream_stays_in_table:
  "stream_id_of (fst (open_stream protocol_id multi_addr s))
     \<in> dom (buffers (snd (open_stream protocol_id multi_addr s)))
   \<and> dom (buffers s) \<subseteq> dom (buffers (after_call c s))
   \<and> dom (buffers s) \<subseteq> dom (buffers (after_calls cs s))
   \<and> read_buffer (stream_id_of (fst (open_stream protocol_id multi_addr s)))
        (after_calls cs (snd (open_stream protocol_id multi_addr s)))
      \<noteq> Raises StreamNotFound (after_calls cs (snd (open_stream protocol_id multi_addr s)))
   \<and> read_buffer_nonblocking (stream_id_of (fst (open_stream protocol_id multi_addr s)))
        (after_calls cs (snd (open_stream protocol_id multi_addr s)))
      \<noteq> Raises StreamNotFound (after_calls cs (snd (open_stream protocol_id multi_addr s)))"
proof -
  let ?h = "fst (open_stream protocol_id multi_addr s)"
  let ?s1 = "snd (open_stream protocol_id multi_addr s)"
  have id: "stream_id_of ?h = conn_next_id s"
    by (simp add: open_stream_def next_stream_id_def send_message_def write_to_stream_def Let_def)
  have in1: "stream_id_of ?h \<in> dom (buffers ?s1)"
    by (simp add: id open_stream_buffers)
  then have in2: "stream_id_of ?h \<in> dom (buffers (after_calls cs ?s1))"
    using after_calls_dom [of ?s1 cs] by blast
  have "read_buffer (stream_id_of ?h) (after_calls cs ?s1) \<noteq> Raises StreamNotFound (after_calls cs ?s1)"
    using in2 by (auto simp: read_buffer_def queue_get_def split: option.splits list.splits)
  moreover have "read_buffer_nonblocking (stream_id_of ?h) (after_calls cs ?s1)
      \<noteq> Raises StreamNotFound (after_calls cs ?s1)"
    using in2 by (auto simp: read_buffer_nonblocking_def queue_get_def split: option.splits list.splits outcome.splits)
  ultimately show ?thesis using in1 after_call_dom after_calls_dom by simp
qed

section \<open>Resets on the raw connection\<close>

text \<open>
  Claim C7 (transport reset surfacing). When \<open>writer.write\<close>, \<open>writer.drain\<close> or
  \<open>reader.read\<close> raises \<open>ConnectionResetError\<close>, \<open>RawConnection.write\<close> and
  \<open>RawConnection.read\<close> raise \<open>RawConnError\<close>; when the underlying calls succeed,
  \<open>write\<close> returns normally and \<open>read\<close> returns the bytes read.
\<close>

theorem reset_surfaces_as_RawConnError:
  "(writer_write b data = Some ConnectionResetError \<longrightarrow> RawConnection_write b data = Inl RawConnError)
   \<and> (writer_write b data = None \<and> writer_drain b = Some ConnectionResetError
        \<longrightarrow> RawConnection_write b data = Inl RawConnError)
   \<and> (writer_write b data = None \<and> writer_drain b = None \<longrightarrow> RawConnection_write b data = Inr ())
   \<and> (reader_read_n b n = Inl ConnectionResetError \<longrightarrow> RawConnection_read b n = Inl RawConnError)
   \<and> (reader_read_n b n = Inr bs \<longrightarrow> RawConnection_read b n = Inr bs)"
  by (simp add: RawConnection_write_def RawConnection_read_def on_reset_def)

theorem reset_surfaces_as_RawConnError_witness:
  "RawConnection_write \<lparr>writer_write = \<lambda>d. Some ConnectionResetError, writer_drain = None,
       reader_read_n = \<lambda>n. Inl ConnectionResetError\<rparr> [0x28, 0x00] = Inl RawConnError
   \<and> RawConnection_read \<lparr>writer_write = \<lambda>d. Some ConnectionResetError, writer_drain = None,
       reader_read_n = \<lambda>n. Inl ConnectionResetError\<rparr> (-1) = Inl RawConnError
   \<and> RawConnection_write \<lparr>writer_write = \<lambda>d. None, writer_drain = Some ConnectionResetError,
       reader_read_n = \<lambda>n. Inr [0x28, 0x00]\<rparr> [0x28, 0x00] = Inl RawConnError
   \<and> RawConnection_read \<lparr>writer_write = \<lambda>d. None, writer_drain = Some ConnectionResetError,
       reader_read_n = \<lambda>n. Inr [0x28, 0x00]\<rparr> (-1) = Inr [0x28, 0x00]
   \<and> RawConnection_write \<lparr>writer_write = \<lambda>d. None, writer_drain = None,
       reader_read_n = \<lambda>n. Inr []\<rparr> [0x28, 0x00] = Inr ()"
  using
    reset_surfaces_as_RawConnError [of "\<lparr>writer_write = \<lambda>d. Some ConnectionResetError,
       writer_drain = None, reader_read_n = \<lambda>n. Inl ConnectionResetError\<rparr>" "[0x28, 0x00]" "-1" "[]"]
    reset_surfaces_as_RawConnError [of "\<lparr>writer_write = \<lambda>d. None,
       writer_drain = Some ConnectionResetError, reader_read_n = \<lambda>n. Inr [0x28, 0x00]\<rparr>"
       "[0x28, 0x00]" "-1" "[0x28, 0x00]"]
    reset_surfaces_as_RawConnError [of "\<lparr>writer_write = \<lambda>d. None,
       writer_drain = None, reader_read_n = \<lambda>n. Inr []\<rparr>" "[0x28, 0x00]" "-1" "[]"]
  by simp

end
